theory Spec2Isabelle
  imports Main "HOL-Library.Char_ord" "HOL-Library.List_Lexorder"
begin

section \<open>Data model (package models, package config)\<close>

text \<open>
  Go strings are byte sequences; \<^typ>\<open>string\<close> is a list of 8-bit characters.
  Only the fields that the playlist pipeline reads or writes are kept in the records:
  \<open>Track\<close> also has \<open>Duration\<close>, \<open>TrackNumber\<close>, \<open>ArtistID\<close> and \<open>AlbumID\<close>,
  \<open>Album\<close> has \<open>Artists\<close>, \<open>ReleaseDate\<close> and \<open>NumberOfTracks\<close>, \<open>Playlist\<close> has
  \<open>Creator\<close>, \<open>Created\<close>, \<open>LastUpdated\<close> and \<open>NumberOfTracks\<close>; none of them is touched by
  the builder or by the playlist client. A Go \<open>error\<close> is represented by its message.
\<close>

type_synonym error = string

record ArtistID =
  aid_ID :: string

record Artist =
  artist_ID :: string
  artist_Name :: string

record Track =
  track_ID :: string
  track_Title :: string
  track_Artists :: "Artist list"

record Album =
  album_ID :: string
  album_Title :: string

record Playlist =
  pl_ID :: string
  pl_UUID :: string
  pl_Title :: string
  pl_Name :: string
  pl_Description :: string

definition GetID :: "Playlist \<Rightarrow> string" where
  "GetID p = (if pl_ID p \<noteq> '''' then pl_ID p else pl_UUID p)"

definition GetTitle :: "Playlist \<Rightarrow> string" where
  "GetTitle p = (if pl_Title p \<noteq> '''' then pl_Title p else pl_Name p)"

record Config =
  Count :: int
  Blacklist :: "string list"
  Whitelist :: "string list"

section \<open>Effects: the trace of a run, the remote service, the random source\<close>

text \<open>
  Everything a run does to the outside is recorded, in order, in a trace: each call of an
  HTTP method of the API client with its arguments, and each line printed. The answers
  of the remote service are parameters of the model (\<open>world\<close>); each answer may depend on
  everything that happened before (the trace so far), so a service whose state changes
  during the run, or that fails at the second call, is covered. \<open>rand.Intn\<close> is driven
  by an arbitrary sequence \<open>rnd\<close> of raw draws; \<open>strings.ToLower\<close> is a parameter too.
\<close>

datatype arg = S string | I int | E "error option"

datatype event =
    Println string
  | Printf string "arg list"
  | GetFavoriteArtistsCall
  | GetArtistCall string
  | GetArtistAlbumsCall string int
  | GetAlbumTracksCall string
  | GetUserPlaylistsCall
  | CreatePlaylistCall string string
  | UpdatePlaylistMetadataCall string string string
  | SetPlaylistTracksCall string "string list"
  | DeletePlaylistCall string

datatype panic = NilDereference | IntnNonPositive | MakeSliceNegative | IndexOutOfRange

record state =
  trace :: "event list"
  draws :: nat

record world =
  rnd :: "nat \<Rightarrow> nat"
  ToLower :: "string \<Rightarrow> string"
  FavoriteArtists_resp :: "event list \<Rightarrow> error + ArtistID list"
  Artist_resp :: "event list \<Rightarrow> string \<Rightarrow> error + Artist"
  ArtistAlbums_resp :: "event list \<Rightarrow> string \<Rightarrow> error + (string \<times> string) list"
  AlbumTracks_resp :: "event list \<Rightarrow> string \<Rightarrow> error + (string \<times> string) list"
  UserPlaylists_resp :: "event list \<Rightarrow> error + (string \<times> string \<times> string) list"
  CreatePlaylist_resp :: "event list \<Rightarrow> string \<Rightarrow> string \<Rightarrow> error + (string \<times> string \<times> string)"
  SetPlaylistTracks_resp :: "event list \<Rightarrow> string \<Rightarrow> string list \<Rightarrow> error option"
  DeletePlaylist_resp :: "event list \<Rightarrow> string \<Rightarrow> error option"

definition emit :: "event \<Rightarrow> state \<Rightarrow> state" where
  "emit e st = st\<lparr>trace := trace st @ [e]\<rparr>"

text \<open>\<open>rand.Intn(n)\<close> panics for \<open>n \<le> 0\<close> and returns a value in \<open>[0, n)\<close> otherwise.\<close>

definition Intn :: "world \<Rightarrow> nat \<Rightarrow> state \<Rightarrow> (panic + nat) \<times> state" where
  "Intn w n st =
     (if n = 0 then (Inl IntnNonPositive, st)
      else (Inr (rnd w (draws st) mod n), st\<lparr>draws := draws st + 1\<rparr>))"

section \<open>Package builder: sampling and filtering\<close>

text \<open>
  \<open>selectRandomItems\<close>: \<open>make([]T, count)\<close> panics for a negative count and gives
  \<open>count\<close> zero values otherwise; the loop overwrites slot \<open>i\<close> with
  \<open>source[rand.Intn(len(source))]\<close>. The index is in range by the contract of \<open>Intn\<close>.
\<close>

function selectRandomItems_loop ::
  "world \<Rightarrow> nat \<Rightarrow> 'a list \<Rightarrow> nat \<Rightarrow> 'a list \<Rightarrow> state \<Rightarrow> (panic + 'a list) \<times> state" where
  "selectRandomItems_loop w count source i result st =
     (if i < count then
        (case Intn w (length source) st of
           (Inl p, st1) \<Rightarrow> (Inl p, st1)
         | (Inr randomRobert, st1) \<Rightarrow>
             selectRandomItems_loop w count source (i + 1)
               (result[i := source ! randomRobert]) st1)
      else (Inr result, st))"
  by pat_completeness auto
termination
  by (relation "measure (\<lambda>(w, count, source, i, result, st). count - i)") auto

declare selectRandomItems_loop.simps [simp del]

definition selectRandomItems ::
  "world \<Rightarrow> 'a \<Rightarrow> int \<Rightarrow> 'a list \<Rightarrow> state \<Rightarrow> (panic + 'a list) \<times> state" where
  "selectRandomItems w zero count source st =
     (if count < 0 then (Inl MakeSliceNegative, st)
      else selectRandomItems_loop w (nat count) source 0 (replicate (nat count) zero) st)"

text \<open>
  The filters build a \<open>map[string]bool\<close> keyed by the lower-cased names; reading a missing
  key of a Go map gives \<open>false\<close>.
\<close>

fun lowerSet :: "(string \<Rightarrow> string) \<Rightarrow> string list \<Rightarrow> (string \<rightharpoonup> bool) \<Rightarrow> (string \<rightharpoonup> bool)" where
  "lowerSet lower [] m = m"
| "lowerSet lower (name # names) m = lowerSet lower names (m(lower name \<mapsto> True))"

definition mapGet :: "(string \<rightharpoonup> bool) \<Rightarrow> string \<Rightarrow> bool" where
  "mapGet m k = (case m k of None \<Rightarrow> False | Some b \<Rightarrow> b)"

definition filterByWhitelist :: "(string \<Rightarrow> string) \<Rightarrow> Config \<Rightarrow> ArtistID list \<Rightarrow> ArtistID list" where
  "filterByWhitelist lower cfg artists =
     (let whitelist = lowerSet lower (Whitelist cfg) Map.empty
      in filter (\<lambda>artist. mapGet whitelist (lower (aid_ID artist))) artists)"

definition filterByBlacklist :: "(string \<Rightarrow> string) \<Rightarrow> Config \<Rightarrow> ArtistID list \<Rightarrow> ArtistID list" where
  "filterByBlacklist lower cfg artists =
     (let blacklist = lowerSet lower (Blacklist cfg) Map.empty
      in filter (\<lambda>artist. \<not> mapGet blacklist (lower (aid_ID artist))) artists)"

definition FilterArtists :: "(string \<Rightarrow> string) \<Rightarrow> Config \<Rightarrow> ArtistID list \<Rightarrow> ArtistID list" where
  "FilterArtists lower cfg artists =
     (if length (Whitelist cfg) > 0 then filterByWhitelist lower cfg artists
      else if length (Blacklist cfg) > 0 then filterByBlacklist lower cfg artists
      else artists)"

section \<open>Package api: the client methods used by the pipeline\<close>

text \<open>
  Each client method performs one HTTP exchange and decodes the answer. The exchange is
  the answer of the \<open>world\<close> at the current trace, and the call is appended to the trace.
  On every error path these methods return a nil pointer (or nil slice) together with the
  error: \<open>Inl err\<close> stands for \<open>(nil, err)\<close>. The construction of the records from the
  decoded items follows the source (\<open>GetUserPlaylists\<close> and \<open>CreatePlaylist\<close> copy the
  \<open>name\<close> attribute to both \<open>Name\<close> and \<open>Title\<close> and leave \<open>UUID\<close> empty;
  \<open>GetAlbumTracks\<close> fills \<open>ID\<close> and \<open>Title\<close> only; \<open>GetArtistAlbums\<close> truncates
  to \<open>limit\<close>). The transport below this interface (the request helpers, the
  rate-limiting gate, the token refresh) and the JSON decoding are not modelled.
  \<open>GetFavoriteArtists\<close> and \<open>GetUserPlaylists\<close> make more than one request (the user ID
  first; the former then follows the cursors of the service); their result, the pages
  concatenated or the first error, is one answer of the world. A service that never sends
  an empty cursor would keep \<open>GetFavoriteArtists\<close> from returning: what is proved below
  concerns the runs in which every client method returns.
\<close>

definition GetFavoriteArtists :: "world \<Rightarrow> state \<Rightarrow> (error + ArtistID list) \<times> state" where
  "GetFavoriteArtists w st =
     (FavoriteArtists_resp w (trace st), emit GetFavoriteArtistsCall st)"

definition GetArtist :: "world \<Rightarrow> string \<Rightarrow> state \<Rightarrow> (error + Artist) \<times> state" where
  "GetArtist w artistID st =
     (Artist_resp w (trace st) artistID, emit (GetArtistCall artistID) st)"

definition GetArtistAlbums ::
  "world \<Rightarrow> string \<Rightarrow> nat \<Rightarrow> state \<Rightarrow> (error + Album list) \<times> state" where
  "GetArtistAlbums w artistID limit st =
     (case ArtistAlbums_resp w (trace st) artistID of
        Inl err \<Rightarrow> (Inl err, emit (GetArtistAlbumsCall artistID (int limit)) st)
      | Inr items \<Rightarrow>
          (let albums = map (\<lambda>(ident, title). \<lparr>album_ID = ident, album_Title = title\<rparr>) items
           in (Inr (if length albums > limit then take limit albums else albums),
               emit (GetArtistAlbumsCall artistID (int limit)) st)))"

definition GetAlbumTracks :: "world \<Rightarrow> string \<Rightarrow> state \<Rightarrow> (error + Track list) \<times> state" where
  "GetAlbumTracks w albumID st =
     (case AlbumTracks_resp w (trace st) albumID of
        Inl err \<Rightarrow> (Inl err, emit (GetAlbumTracksCall albumID) st)
      | Inr items \<Rightarrow>
          (Inr (map (\<lambda>(ident, title).
                  \<lparr>track_ID = ident, track_Title = title, track_Artists = []\<rparr>) items),
           emit (GetAlbumTracksCall albumID) st))"

definition GetUserPlaylists :: "world \<Rightarrow> state \<Rightarrow> (error + Playlist list) \<times> state" where
  "GetUserPlaylists w st =
     (case UserPlaylists_resp w (trace st) of
        Inl err \<Rightarrow> (Inl err, emit GetUserPlaylistsCall st)
      | Inr items \<Rightarrow>
          (Inr (map (\<lambda>(ident, name, description).
                  \<lparr>pl_ID = ident, pl_UUID = '''', pl_Title = name, pl_Name = name,
                   pl_Description = description\<rparr>) items),
           emit GetUserPlaylistsCall st))"

definition CreatePlaylist ::
  "world \<Rightarrow> string \<Rightarrow> string \<Rightarrow> state \<Rightarrow> (error + Playlist) \<times> state" where
  "CreatePlaylist w title description st =
     (case CreatePlaylist_resp w (trace st) title description of
        Inl err \<Rightarrow> (Inl err, emit (CreatePlaylistCall title description) st)
      | Inr (ident, name, descr) \<Rightarrow>
          (Inr \<lparr>pl_ID = ident, pl_UUID = '''', pl_Title = name, pl_Name = name,
                pl_Description = descr\<rparr>,
           emit (CreatePlaylistCall title description) st))"

definition SetPlaylistTracks ::
  "world \<Rightarrow> string \<Rightarrow> string list \<Rightarrow> state \<Rightarrow> error option \<times> state" where
  "SetPlaylistTracks w playlistUUID trackIDs st =
     (SetPlaylistTracks_resp w (trace st) playlistUUID trackIDs,
      emit (SetPlaylistTracksCall playlistUUID trackIDs) st)"

definition DeletePlaylist :: "world \<Rightarrow> string \<Rightarrow> state \<Rightarrow> error option \<times> state" where
  "DeletePlaylist w playlistUUID st =
     (DeletePlaylist_resp w (trace st) playlistUUID, emit (DeletePlaylistCall playlistUUID) st)"

definition FindAllPlaylistsByName ::
  "world \<Rightarrow> string \<Rightarrow> state \<Rightarrow> (error + Playlist list) \<times> state" where
  "FindAllPlaylistsByName w name st =
     (case GetUserPlaylists w st of
        (Inl err, st1) \<Rightarrow> (Inl (''failed to get user playlists: '' @ err), st1)
      | (Inr playlists, st1) \<Rightarrow>
          (Inr (filter (\<lambda>playlist. GetTitle playlist = name) playlists), st1))"

text \<open>The two loops of \<open>CreateOrUpdatePlaylist\<close>: deletion of the matches, batched writes.\<close>

fun deleteLoop :: "world \<Rightarrow> Playlist list \<Rightarrow> state \<Rightarrow> error option \<times> state" where
  "deleteLoop w [] st = (None, st)"
| "deleteLoop w (playlist # rest) st =
     (case DeletePlaylist w (pl_ID playlist) st of
        (Some err, st1) \<Rightarrow>
          (Some (''failed to delete playlist '' @ pl_ID playlist @ '': '' @ err), st1)
      | (None, st1) \<Rightarrow> deleteLoop w rest st1)"

definition batchSize :: nat where
  "batchSize = 20"

function batchLoop ::
  "world \<Rightarrow> string \<Rightarrow> string list \<Rightarrow> nat \<Rightarrow> state \<Rightarrow> error option \<times> state" where
  "batchLoop w playlistID trackIDs i st =
     (if i < length trackIDs then
        (let end = (if i + batchSize > length trackIDs then length trackIDs
                    else i + batchSize);
             batch = take (end - i) (drop i trackIDs)
         in case SetPlaylistTracks w playlistID batch st of
              (Some err, st1) \<Rightarrow> (Some (''failed to add tracks to playlist: '' @ err), st1)
            | (None, st1) \<Rightarrow>
                batchLoop w playlistID trackIDs (i + batchSize)
                  (emit (Printf ''Added %d tracks...\<newline>'' [I (int end)]) st1))
      else (None, st))"
  by pat_completeness auto
termination
  by (relation "measure (\<lambda>(w, playlistID, trackIDs, i, st). length trackIDs - i)")
     (auto simp: batchSize_def)

declare batchLoop.simps [simp del]

definition CreateOrUpdatePlaylist ::
  "world \<Rightarrow> string \<Rightarrow> string \<Rightarrow> string list \<Rightarrow> state \<Rightarrow> (error + Playlist) \<times> state" where
  "CreateOrUpdatePlaylist w name description trackIDs st =
     (case FindAllPlaylistsByName w name st of
        (Inl err, st1) \<Rightarrow> (Inl (''failed to search for existing playlists: '' @ err), st1)
      | (Inr existingPlaylists, st1) \<Rightarrow>
          (case deleteLoop w existingPlaylists st1 of
             (Some err, st2) \<Rightarrow> (Inl err, st2)
           | (None, st2) \<Rightarrow>
               (let st3 = emit (Printf ''Creating new playlist '%s'...\<newline>'' [S name]) st2
                in case CreatePlaylist w name description st3 of
                     (Inl err, st4) \<Rightarrow> (Inl (''failed to create playlist: '' @ err), st4)
                   | (Inr playlist, st4) \<Rightarrow>
                       (case batchLoop w (GetID playlist) trackIDs 0 st4 of
                          (Some err, st5) \<Rightarrow> (Inl err, st5)
                        | (None, st5) \<Rightarrow> (Inr playlist, st5)))))"

section \<open>Package builder: track collection and orchestration\<close>

text \<open>
  One iteration of the loop of \<open>CollectTracks\<close>, in two parts. \<open>CollectTracks_pick\<close> is
  the part after the album list is settled: a random album, its tracks, a random track
  stored at \<open>result[i]\<close> (a write out of range would panic). \<open>CollectTracks_body\<close> is the
  whole iteration and returns the loop variables \<open>lastArtist\<close>, \<open>lastAlbums\<close>, \<open>result\<close>.
  When \<open>GetArtist\<close> fails, \<open>artist\<close> is nil, and the arguments of the warning
  (\<open>artist.ID\<close>, \<open>err\<close>) are evaluated before anything is printed: the read of
  \<open>artist.ID\<close> panics.
\<close>

definition CollectTracks_pick ::
  "world \<Rightarrow> nat \<Rightarrow> string \<Rightarrow> Album list \<Rightarrow> Track option list \<Rightarrow> state
     \<Rightarrow> (panic + string \<times> Album list \<times> Track option list) \<times> state" where
  "CollectTracks_pick w i lastArtist lastAlbums result st =
     (case Intn w (length lastAlbums) st of
        (Inl p, st1) \<Rightarrow> (Inl p, st1)
      | (Inr r, st1) \<Rightarrow>
          (let randomAlbum = lastAlbums ! r;
               st2 = emit (Printf ''  %s - '' [S (album_Title randomAlbum)]) st1
           in case GetAlbumTracks w (album_ID randomAlbum) st2 of
                (Inl err, st3) \<Rightarrow> (Inr (lastArtist, lastAlbums, result), st3)
              | (Inr tracks, st3) \<Rightarrow>
                  if length tracks > 0 then
                    (case Intn w (length tracks) st3 of
                       (Inl p, st4) \<Rightarrow> (Inl p, st4)
                     | (Inr k, st4) \<Rightarrow>
                         (let randomTrack = tracks ! k
                          in if i < length result then
                               (Inr (lastArtist, lastAlbums, result[i := Some randomTrack]),
                                emit (Println (track_Title randomTrack)) st4)
                             else (Inl IndexOutOfRange, st4)))
                  else (Inr (lastArtist, lastAlbums, result), st3)))"

definition CollectTracks_body ::
  "world \<Rightarrow> nat \<Rightarrow> ArtistID \<Rightarrow> string \<Rightarrow> Album list \<Rightarrow> Track option list \<Rightarrow> state
     \<Rightarrow> (panic + string \<times> Album list \<times> Track option list) \<times> state" where
  "CollectTracks_body w i artistId lastArtist lastAlbums result st =
     (case GetArtist w (aid_ID artistId) st of
        (Inl err, st1) \<Rightarrow> (Inl NilDereference, st1)
      | (Inr artist, st1) \<Rightarrow>
          if lastArtist = '''' \<or> lastArtist \<noteq> artist_ID artist then
            (let st2 = emit (Println (artist_Name artist @ '' ('' @ artist_ID artist @ '')'')) st1
             in case GetArtistAlbums w (artist_ID artist) 100 st2 of
                  (Inl err, st3) \<Rightarrow>
                    (Inr (lastArtist, lastAlbums, result),
                     emit (Printf ''Warning: failed to get albums for %s: %v\<newline>''
                             [S (artist_ID artist), E (Some err)]) st3)
                | (Inr albums, st3) \<Rightarrow>
                    if length albums = 0 then
                      (Inr (lastArtist, lastAlbums, result),
                       emit (Printf ''Warning: failed to get albums for %s: %v\<newline>''
                               [S (artist_ID artist), E None]) st3)
                    else CollectTracks_pick w i (artist_ID artist) albums result st3)
          else CollectTracks_pick w i lastArtist lastAlbums result st1)"

fun CollectTracks_loop ::
  "world \<Rightarrow> ArtistID list \<Rightarrow> nat \<Rightarrow> string \<Rightarrow> Album list \<Rightarrow> Track option list \<Rightarrow> state
     \<Rightarrow> (panic + Track option list) \<times> state" where
  "CollectTracks_loop w [] i lastArtist lastAlbums result st = (Inr result, st)"
| "CollectTracks_loop w (artistId # rest) i lastArtist lastAlbums result st =
     (case CollectTracks_body w i artistId lastArtist lastAlbums result st of
        (Inl p, st1) \<Rightarrow> (Inl p, st1)
      | (Inr (lastArtist1, lastAlbums1, result1), st1) \<Rightarrow>
          CollectTracks_loop w rest (i + 1) lastArtist1 lastAlbums1 result1 st1)"

text \<open>
  \<open>CollectTracks\<close> sorts the slice it is given in place, so its caller sees the sorted
  order afterwards: the model returns the new contents of \<open>artists\<close> beside the result.
  An \<open>ArtistID\<close> has no field but \<open>ID\<close>, and \<open>strings.Compare\<close> is the bytewise
  lexicographic order, so the outcome of the (unstable) \<open>slices.SortFunc\<close> is the
  sorted list. The returned error is always nil.
\<close>

definition CollectTracks ::
  "world \<Rightarrow> ArtistID list \<Rightarrow> state
     \<Rightarrow> (panic + ArtistID list \<times> Track option list) \<times> state" where
  "CollectTracks w artists st =
     (let result = replicate (length artists) None;
          sortedArtists = sort_key aid_ID artists
      in case CollectTracks_loop w sortedArtists 0 '''' [] result st of
           (Inl p, st1) \<Rightarrow> (Inl p, st1)
         | (Inr result1, st1) \<Rightarrow> (Inr (sortedArtists, result1), st1))"

text \<open>The loops of \<open>BuildPlaylist\<close>: dropping the nil slots, and the dry-run preview.\<close>

fun dropNil :: "Track option list \<Rightarrow> Track list \<Rightarrow> Track list" where
  "dropNil [] finalTracks = finalTracks"
| "dropNil (None # rest) finalTracks = dropNil rest finalTracks"
| "dropNil (Some track # rest) finalTracks = dropNil rest (finalTracks @ [track])"

definition previewLine :: "nat \<Rightarrow> Track \<Rightarrow> event" where
  "previewLine i track =
     (let artistNames = (if length (track_Artists track) > 0
                         then artist_Name (track_Artists track ! 0) else '''')
      in Printf ''  %d. %s - %s\<newline>'' [I (int i + 1), S artistNames, S (track_Title track)])"

fun previewLoop :: "Track list \<Rightarrow> nat \<Rightarrow> state \<Rightarrow> state" where
  "previewLoop [] i st = st"
| "previewLoop (track # rest) i st =
     (if i \<ge> 10 then st else previewLoop rest (i + 1) (emit (previewLine i track) st))"

text \<open>\<open>BuildPlaylist\<close> from the point where \<open>CollectTracks\<close> has returned \<open>tracks\<close>.\<close>

definition BuildPlaylist_finish ::
  "world \<Rightarrow> string \<Rightarrow> bool \<Rightarrow> Track option list \<Rightarrow> state \<Rightarrow> (panic + error option) \<times> state" where
  "BuildPlaylist_finish w playlistName dryRun tracks st =
     (let st1 = emit (Printf ''\<newline>Collected %d total tracks\<newline>'' [I (int (length tracks))]) st
      in if length tracks = 0 then (Inr (Some ''no tracks collected from artists''), st1)
         else
           (let finalTracks = dropNil tracks [];
                st2 = emit (Printf ''Final track count: %d\<newline>'' [I (int (length finalTracks))]) st1
            in if dryRun then
                 (let st3 = emit (Println ''\<newline>=== DRY RUN MODE ==='') st2;
                      st4 = emit (Printf ''Would create/update playlist '%s' with %d tracks\<newline>''
                                    [S playlistName, I (int (length finalTracks))]) st3;
                      st5 = emit (Println ''\<newline>Tracks:'') st4;
                      st6 = previewLoop finalTracks 0 st5
                  in (Inr None, emit (Println ''  ...'') st6))
               else
                 (let trackIDs = map track_ID finalTracks;
                      st3 = emit (Printf ''\<newline>Creating/updating playlist '%s'...\<newline>''
                                    [S playlistName]) st2
                  in case CreateOrUpdatePlaylist w playlistName ''Generated by tidal-playlist''
                            trackIDs st3 of
                       (Inl err, st4) \<Rightarrow>
                         (Inr (Some (''failed to create/update playlist: '' @ err)), st4)
                     | (Inr playlist, st4) \<Rightarrow>
                         (Inr None,
                          emit (Printf (''\<newline>'' @ [CHR 0xE2, CHR 0x9C, CHR 0x93]
                                  @ '' Success! Playlist '%s' created/updated with %d tracks\<newline>'')
                                  [S (GetTitle playlist), I (int (length trackIDs))]) st4))))"

definition BuildPlaylist ::
  "world \<Rightarrow> Config \<Rightarrow> string \<Rightarrow> bool \<Rightarrow> state \<Rightarrow> (panic + error option) \<times> state" where
  "BuildPlaylist w cfg playlistName dryRun st =
     (let st1 = emit (Println ''Fetching favorite artists...\<newline>'') st
      in case GetFavoriteArtists w st1 of
           (Inl err, st2) \<Rightarrow> (Inr (Some (''failed to fetch favorite artists: '' @ err)), st2)
         | (Inr artists, st2) \<Rightarrow>
             (let st3 = emit (Printf ''Found %d favorite artists\<newline>''
                                [I (int (length artists))]) st2;
                  filteredArtists = FilterArtists (ToLower w) cfg artists;
                  st4 = emit (Printf ''After filtering: %d artists\<newline>''
                                [I (int (length filteredArtists))]) st3
              in if length filteredArtists = 0 then
                   (Inr (Some ''no artists remaining after filtering''), st4)
                 else
                   (case selectRandomItems w \<lparr>aid_ID = ''''\<rparr> (Count cfg) filteredArtists st4 of
                      (Inl p, st5) \<Rightarrow> (Inl p, st5)
                    | (Inr selectedArtists, st5) \<Rightarrow>
                        (let st6 = emit (Println ''\<newline>Collecting tracks from artists...'') st5
                         in case CollectTracks w selectedArtists st6 of
                              (Inl p, st7) \<Rightarrow> (Inl p, st7)
                            | (Inr (sortedArtists, tracks), st7) \<Rightarrow>
                                BuildPlaylist_finish w playlistName dryRun tracks st7))))"

section \<open>Observers of a trace and reference notions\<close>

text \<open>
  \<open>isCall\<close> tells the calls of the remote API from the printed lines, \<open>mutating\<close> the calls
  that change the remote state; \<open>batchesOf\<close> lists the track batches written, in order.
  \<open>newEvents st st'\<close> are the events that a run from \<open>st\<close> to \<open>st'\<close> has added to the
  trace. A list of events is \<open>readOnly\<close> when it has no mutating call and no listing of
  the user's playlists, the call with which \<open>CreateOrUpdatePlaylist\<close> begins.
\<close>

fun isCall :: "event \<Rightarrow> bool" where
  "isCall (Println s) = False"
| "isCall (Printf f as) = False"
| "isCall e = True"

fun mutating :: "event \<Rightarrow> bool" where
  "mutating (CreatePlaylistCall t d) = True"
| "mutating (UpdatePlaylistMetadataCall p t d) = True"
| "mutating (SetPlaylistTracksCall p ids) = True"
| "mutating (DeletePlaylistCall p) = True"
| "mutating e = False"

fun batchesOf :: "event list \<Rightarrow> string list list" where
  "batchesOf [] = []"
| "batchesOf (SetPlaylistTracksCall p ids # es) = ids # batchesOf es"
| "batchesOf (e # es) = batchesOf es"

definition newEvents :: "state \<Rightarrow> state \<Rightarrow> event list" where
  "newEvents st st' = drop (length (trace st)) (trace st')"

definition readOnly :: "event list \<Rightarrow> bool" where
  "readOnly evs = (\<forall>e \<in> set evs. \<not> mutating e \<and> e \<noteq> GetUserPlaylistsCall)"

text \<open>
  The batching the specification asks for, written without the index arithmetic of the
  loop: consecutive pieces of \<open>n\<close> items, the last one shorter when the length is not a
  multiple of \<open>n\<close>.
\<close>

function chunks :: "nat \<Rightarrow> 'a list \<Rightarrow> 'a list list" where
  "chunks n xs = (if xs = [] \<or> n = 0 then [] else take n xs # chunks n (drop n xs))"
  by pat_completeness auto
termination
  by (relation "measure (\<lambda>(n, xs). length xs)") auto

declare chunks.simps [simp del]


definition st0 :: state where
  "st0 = \<lparr>trace = [], draws = 0\<rparr>"




text \<open>
  Two invariants of the loop of \<open>CollectTracks\<close> on its album cache: once \<open>lastArtist\<close>
  is set, \<open>lastAlbums\<close> is not empty (\<open>cacheOK\<close>); with a fixed catalogue it is moreover
  the album list of \<open>lastArtist\<close> (\<open>cacheTrue\<close>).
\<close>

definition cacheOK :: "string \<Rightarrow> Album list \<Rightarrow> bool" where
  "cacheOK lastArtist lastAlbums = (lastArtist \<noteq> '''' \<longrightarrow> lastAlbums \<noteq> [])"


section \<open>Sample worlds for the concrete runs\<close>

text \<open>
  \<open>asciiLower\<close> is \<open>strings.ToLower\<close> on ASCII text. In \<open>demoWorld\<close> the user likes the
  artists \<open>B\<close>, \<open>a\<close> and \<open>C\<close>; every artist has one album with one track, named after
  the artist; the user owns three playlists, two of them titled \<open>Mix\<close>; every call
  succeeds; the raw random draws are 0, 1, 2, ... The other worlds differ from it in one
  answer: in \<open>artistFailWorld\<close> every artist-detail request fails, in
  \<open>artistBFailWorld\<close> the one for artist \<open>B\<close> fails, in \<open>noAlbumsWorld\<close> no artist has
  an album. \<open>demoConfig\<close> asks for two tracks and blacklists \<open>b\<close>; the whitelist of
  \<open>noMatchConfig\<close> matches no favourite artist. \<open>ids45\<close> are 45 distinct track IDs.
\<close>

definition asciiLower :: "string \<Rightarrow> string" where
  "asciiLower s =
     map (\<lambda>c. if CHR ''A'' \<le> c \<and> c \<le> CHR ''Z'' then char_of (of_char c + (32::nat)) else c) s"

definition demoWorld :: world where
  "demoWorld =
     \<lparr>rnd = (\<lambda>k. k),
      ToLower = asciiLower,
      FavoriteArtists_resp = (\<lambda>h. Inr [\<lparr>aid_ID = ''B''\<rparr>, \<lparr>aid_ID = ''a''\<rparr>, \<lparr>aid_ID = ''C''\<rparr>]),
      Artist_resp = (\<lambda>h a. Inr \<lparr>artist_ID = a, artist_Name = ''Artist '' @ a\<rparr>),
      ArtistAlbums_resp = (\<lambda>h a. Inr [(''album-'' @ a, ''Album of '' @ a)]),
      AlbumTracks_resp = (\<lambda>h al. Inr [(''track-'' @ al, ''Track of '' @ al)]),
      UserPlaylists_resp =
        (\<lambda>h. Inr [(''p1'', ''Mix'', ''old''), (''p2'', ''Other'', ''''), (''p3'', ''Mix'', '''')]),
      CreatePlaylist_resp = (\<lambda>h t d. Inr (''new'', t, d)),
      SetPlaylistTracks_resp = (\<lambda>h p ids. None),
      DeletePlaylist_resp = (\<lambda>h p. None)\<rparr>"

definition artistFailWorld :: world where
  "artistFailWorld = demoWorld\<lparr>Artist_resp := (\<lambda>h a. Inl ''HTTP 404'')\<rparr>"

definition artistBFailWorld :: world where
  "artistBFailWorld =
     demoWorld\<lparr>Artist_resp := (\<lambda>h a. if a = ''B'' then Inl ''HTTP 500''
                                     else Inr \<lparr>artist_ID = a, artist_Name = ''Artist '' @ a\<rparr>)\<rparr>"

definition noAlbumsWorld :: world where
  "noAlbumsWorld = demoWorld\<lparr>ArtistAlbums_resp := (\<lambda>h a. Inr [])\<rparr>"

definition demoConfig :: Config where
  "demoConfig = \<lparr>Count = 2, Blacklist = [''b''], Whitelist = []\<rparr>"

definition noMatchConfig :: Config where
  "noMatchConfig = \<lparr>Count = 2, Blacklist = [], Whitelist = [''zz'']\<rparr>"

definition ids45 :: "string list" where
  "ids45 = map (\<lambda>i. replicate (Suc i) CHR ''t'') [0..<45]"

section \<open>Verification: artist filter\<close>

lemma mapGet_lowerSet:
  "mapGet (lowerSet lower names m) k = (k \<in> lower ` set names \<or> mapGet m k)"
  by (induction names arbitrary: m) (auto simp: mapGet_def)

lemma mapGet_lowerSet_empty:
  "mapGet (lowerSet lower names Map.empty) (lower k) = (\<exists>n \<in> set names. lower n = lower k)"
proof -
  have "mapGet Map.empty (lower k) = False" by (simp add: mapGet_def)
  moreover have "(lower k \<in> lower ` set names) = (\<exists>n \<in> set names. lower n = lower k)"
    by (metis (no_types) image_iff)
  ultimately show ?thesis unfolding mapGet_lowerSet by simp
qed

lemma asciiLower_samples:
  "asciiLower ''B'' = ''b''" "asciiLower ''b'' = ''b''" "asciiLower ''a'' = ''a''"
  "asciiLower ''C'' = ''c''" "asciiLower ''A'' = ''a''"
  by code_simp+

text \<open>
  Claim C1. Whatever the favourite artists and the configuration are: with a non-empty
  whitelist, \<open>FilterArtists\<close> returns exactly the artists whose identifier equals some
  whitelist entry after lower-casing both, in input order, and the blacklist plays no role;
  otherwise, with a non-empty blacklist, exactly the artists whose identifier equals no
  blacklist entry after lower-casing, in input order; with both lists empty, the input
  itself. It holds for every lower-casing function, hence for \<open>strings.ToLower\<close>.
\<close>

theorem FilterArtists_spec:
  "FilterArtists lower cfg artists =
     (if Whitelist cfg \<noteq> [] then
        filter (\<lambda>a. \<exists>n \<in> set (Whitelist cfg). lower n = lower (aid_ID a)) artists
      else if Blacklist cfg \<noteq> [] then
        filter (\<lambda>a. \<not> (\<exists>n \<in> set (Blacklist cfg). lower n = lower (aid_ID a))) artists
      else artists)"
  by (simp add: FilterArtists_def filterByWhitelist_def filterByBlacklist_def
      mapGet_lowerSet_empty)

theorem FilterArtists_spec_witness:
  "FilterArtists asciiLower \<lparr>Count = 2, Blacklist = [''b''], Whitelist = []\<rparr>
     [\<lparr>aid_ID = ''B''\<rparr>, \<lparr>aid_ID = ''a''\<rparr>, \<lparr>aid_ID = ''C''\<rparr>]
   = [\<lparr>aid_ID = ''a''\<rparr>, \<lparr>aid_ID = ''C''\<rparr>]
   \<and> FilterArtists asciiLower \<lparr>Count = 2, Blacklist = [''b''], Whitelist = [''A'', ''b'']\<rparr>
     [\<lparr>aid_ID = ''B''\<rparr>, \<lparr>aid_ID = ''a''\<rparr>, \<lparr>aid_ID = ''C''\<rparr>]
   = [\<lparr>aid_ID = ''B''\<rparr>, \<lparr>aid_ID = ''a''\<rparr>]"
  using FilterArtists_spec [of asciiLower "\<lparr>Count = 2, Blacklist = [''b''], Whitelist = []\<rparr>"
      "[\<lparr>aid_ID = ''B''\<rparr>, \<lparr>aid_ID = ''a''\<rparr>, \<lparr>aid_ID = ''C''\<rparr>]"]
    FilterArtists_spec [of asciiLower "\<lparr>Count = 2, Blacklist = [''b''], Whitelist = [''A'', ''b'']\<rparr>"
      "[\<lparr>aid_ID = ''B''\<rparr>, \<lparr>aid_ID = ''a''\<rparr>, \<lparr>aid_ID = ''C''\<rparr>]"]
  by (simp add: asciiLower_samples)

section \<open>Verification: random sampling\<close>

lemma Intn_pos:
  "0 < n \<Longrightarrow> Intn w n st = (Inr (rnd w (draws st) mod n), st\<lparr>draws := draws st + 1\<rparr>)"
  by (simp add: Intn_def)

text \<open>
  The loop from index \<open>i\<close> on: it ends normally, keeps the slots below \<open>i\<close>, fills slot
  \<open>j \<ge> i\<close> with the source element chosen by draw number \<open>draws st + (j - i)\<close>, makes
  \<open>count - i\<close> draws and leaves the trace alone.
\<close>

lemma selectRandomItems_loop_ok:
  "source \<noteq> [] \<Longrightarrow> length result = count \<Longrightarrow> i \<le> count \<Longrightarrow>
   \<exists>result' st'. selectRandomItems_loop w count source i result st = (Inr result', st')
      \<and> length result' = count
      \<and> (\<forall>j < i. result' ! j = result ! j)
      \<and> (\<forall>j. i \<le> j \<and> j < count \<longrightarrow>
             result' ! j = source ! (rnd w (draws st + (j - i)) mod length source))
      \<and> trace st' = trace st \<and> draws st' = draws st + (count - i)"
proof (induction w count source i result st rule: selectRandomItems_loop.induct)
  case (1 w count source i result st)
  show ?case
  proof (cases "i < count")
    case False
    with "1.prems" show ?thesis
      by (auto simp add: selectRandomItems_loop.simps)
  next
    case True
    let ?r = "rnd w (draws st) mod length source"
    let ?st1 = "st\<lparr>draws := draws st + 1\<rparr>"
    have I: "Intn w (length source) st = (Inr ?r, ?st1)"
      using "1.prems"(1) by (simp add: Intn_pos)
    from "1.IH"[OF True I[symmetric] refl] "1.prems" True
    obtain result' st' where
      R: "selectRandomItems_loop w count source (i + 1) (result[i := source ! ?r]) ?st1
            = (Inr result', st')"
      and L: "length result' = count"
      and P: "\<forall>j < i + 1. result' ! j = (result[i := source ! ?r]) ! j"
      and S: "\<forall>j. i + 1 \<le> j \<and> j < count \<longrightarrow>
                result' ! j = source ! (rnd w (draws ?st1 + (j - (i + 1))) mod length source)"
      and T: "trace st' = trace ?st1" "draws st' = draws ?st1 + (count - (i + 1))"
      by auto
    have E: "selectRandomItems_loop w count source i result st = (Inr result', st')"
      using True I R by (subst selectRandomItems_loop.simps) simp
    have A: "\<forall>j < i. result' ! j = result ! j"
      using P by auto
    have B: "result' ! j = source ! (rnd w (draws st + (j - i)) mod length source)"
      if "i \<le> j" "j < count" for j
    proof (cases "j = i")
      case True
      then show ?thesis using P \<open>i < count\<close> "1.prems"(2) by auto
    next
      case False
      with that have "i + 1 \<le> j" by simp
      moreover from this have "Suc (draws st + (j - Suc i)) = draws st + (j - i)" by simp
      ultimately show ?thesis using S that by simp
    qed
    show ?thesis using E L A B T True by auto
  qed
qed

lemma selectRandomItems_ok:
  assumes "0 \<le> count" and "source \<noteq> []"
  shows "\<exists>result st'. selectRandomItems w zero count source st = (Inr result, st')
      \<and> length result = nat count
      \<and> (\<forall>j < nat count. result ! j = source ! (rnd w (draws st + j) mod length source))
      \<and> trace st' = trace st"
  using selectRandomItems_loop_ok [of source "replicate (nat count) zero" "nat count" 0 w st] assms
  by (auto simp: selectRandomItems_def)



section \<open>Verification: playlist upsert\<close>

lemma trace_emit [simp]: "trace (emit e st) = trace st @ [e]"
  by (simp add: emit_def)

lemma draws_emit [simp]: "draws (emit e st) = draws st"
  by (simp add: emit_def)

lemma deleteLoop_trace:
  "deleteLoop w ps st = (r, st') \<Longrightarrow>
     \<exists>k. trace st' = trace st @ map (\<lambda>p. DeletePlaylistCall (pl_ID p)) (take k ps)
        \<and> draws st' = draws st \<and> (r = None \<longrightarrow> take k ps = ps)"
proof (induction ps arbitrary: st)
  case Nil
  then show ?case by auto
next
  case (Cons p ps)
  show ?case
  proof (cases "DeletePlaylist_resp w (trace st) (pl_ID p)")
    case (Some err)
    with Cons.prems have "st' = emit (DeletePlaylistCall (pl_ID p)) st" "r \<noteq> None"
      by (auto simp: DeletePlaylist_def)
    then show ?thesis
      by (intro exI[of _ 1]) auto
  next
    case None
    with Cons.prems have "deleteLoop w ps (emit (DeletePlaylistCall (pl_ID p)) st) = (r, st')"
      by (simp add: DeletePlaylist_def)
    from Cons.IH[OF this] obtain k where
      "trace st' = trace (emit (DeletePlaylistCall (pl_ID p)) st)
          @ map (\<lambda>p. DeletePlaylistCall (pl_ID p)) (take k ps)"
      "draws st' = draws st" "r = None \<longrightarrow> take k ps = ps"
      by auto
    then show ?thesis
      by (intro exI[of _ "Suc k"]) simp
  qed
qed

lemma chunks_step:
  "i < length xs \<Longrightarrow> 0 < n \<Longrightarrow>
     chunks n (drop i xs) = take n (drop i xs) # chunks n (drop (i + n) xs)"
  by (subst chunks.simps) (simp add: add.commute)

lemma chunks_Nil [simp]: "chunks n [] = []"
  by (subst chunks.simps) simp

lemma chunks_done: "length xs \<le> i \<Longrightarrow> chunks n (drop i xs) = []"
  by simp

lemma batchLoop_trace:
  "batchLoop w pid ids i st = (r, st') \<Longrightarrow>
     \<exists>evs k. trace st' = trace st @ evs \<and> draws st' = draws st
        \<and> filter isCall evs
            = map (SetPlaylistTracksCall pid) (take k (chunks batchSize (drop i ids)))
        \<and> (r = None \<longrightarrow> take k (chunks batchSize (drop i ids)) = chunks batchSize (drop i ids))"
proof (induction w pid ids i st arbitrary: r st' rule: batchLoop.induct)
  case (1 w pid ids i st)
  show ?case
  proof (cases "i < length ids")
    case False
    with "1.prems" have "st' = st" "r = None"
      by (simp_all add: batchLoop.simps)
    with False show ?thesis
      by (intro exI[of _ "[]"] exI[of _ 0]) (simp add: chunks_done)
  next
    case True
    define endi where "endi = (if i + batchSize > length ids then length ids else i + batchSize)"
    define batch where "batch = take (endi - i) (drop i ids)"
    have batch: "batch = take batchSize (drop i ids)"
      using True by (auto simp: batch_def endi_def)
    have ch: "chunks batchSize (drop i ids) = batch # chunks batchSize (drop (i + batchSize) ids)"
      using True by (simp add: chunks_step batch batchSize_def)
    let ?call = "SetPlaylistTracksCall pid batch"
    show ?thesis
    proof (cases "SetPlaylistTracks_resp w (trace st) pid batch")
      case (Some err)
      with "1.prems" True have "st' = emit ?call st" "r \<noteq> None"
        by (auto simp add: batchLoop.simps[of w pid ids i st] SetPlaylistTracks_def Let_def
            batch_def endi_def)
      then show ?thesis
        by (intro exI[of _ "[?call]"] exI[of _ 1]) (auto simp add: ch)
    next
      case None
      let ?st2 = "emit (Printf ''Added %d tracks...\<newline>'' [I (int endi)]) (emit ?call st)"
      have S: "SetPlaylistTracks w pid batch st = (None, emit ?call st)"
        using None by (simp add: SetPlaylistTracks_def)
      from "1.prems" True S have R: "batchLoop w pid ids (i + batchSize) ?st2 = (r, st')"
        by (simp add: batchLoop.simps[of w pid ids i st] Let_def batch_def endi_def)
      from "1.IH"[OF True endi_def batch_def S[symmetric] refl R]
      obtain evs k where
        "trace st' = trace ?st2 @ evs" "draws st' = draws ?st2"
        "filter isCall evs
            = map (SetPlaylistTracksCall pid) (take k (chunks batchSize (drop (i + batchSize) ids)))"
        "r = None \<longrightarrow> take k (chunks batchSize (drop (i + batchSize) ids))
            = chunks batchSize (drop (i + batchSize) ids)"
        by blast
      then show ?thesis
        by (intro exI[of _ "?call # Printf ''Added %d tracks...\<newline>'' [I (int endi)] # evs"]
            exI[of _ "Suc k"]) (simp add: ch)
    qed
  qed
qed


lemma filter_isCall_deletes [simp]:
  "filter isCall (map (\<lambda>p. DeletePlaylistCall (pl_ID p)) ps) = map (\<lambda>p. DeletePlaylistCall (pl_ID p)) ps"
  by (induction ps) auto

lemma newEvents_append: "trace st' = trace st @ evs \<Longrightarrow> newEvents st st' = evs"
  by (simp add: newEvents_def)

lemma CreateOrUpdatePlaylist_cases [consumes 1, case_names list_failed delete_failed create_failed created]:
  assumes run: "CreateOrUpdatePlaylist w name description trackIDs st = (r, st')"
  obtains
    (list_failed) e evs where
      "r = Inl e" "trace st' = trace st @ evs" "draws st' = draws st"
      "filter isCall evs = [GetUserPlaylistsCall]"
  | (delete_failed) e evs playlists k where
      "r = Inl e" "trace st' = trace st @ evs" "draws st' = draws st"
      "fst (GetUserPlaylists w st) = Inr playlists"
      "filter isCall evs = GetUserPlaylistsCall #
         map (\<lambda>p. DeletePlaylistCall (pl_ID p)) (take k (filter (\<lambda>p. GetTitle p = name) playlists))"
  | (create_failed) e evs playlists where
      "r = Inl e" "trace st' = trace st @ evs" "draws st' = draws st"
      "fst (GetUserPlaylists w st) = Inr playlists"
      "filter isCall evs = GetUserPlaylistsCall #
         map (\<lambda>p. DeletePlaylistCall (pl_ID p)) (filter (\<lambda>p. GetTitle p = name) playlists)
         @ [CreatePlaylistCall name description]"
  | (created) evs playlists pl k where
      "trace st' = trace st @ evs" "draws st' = draws st"
      "fst (GetUserPlaylists w st) = Inr playlists"
      "filter isCall evs = GetUserPlaylistsCall #
         map (\<lambda>p. DeletePlaylistCall (pl_ID p)) (filter (\<lambda>p. GetTitle p = name) playlists)
         @ CreatePlaylistCall name description #
           map (SetPlaylistTracksCall (GetID pl)) (take k (chunks batchSize trackIDs))"
      "(\<exists>e. r = Inl e) \<or>
       (r = Inr pl \<and> take k (chunks batchSize trackIDs) = chunks batchSize trackIDs)"
proof (cases "GetUserPlaylists w st")
  case (Pair g st1)
  have st1: "trace st1 = trace st @ [GetUserPlaylistsCall]" "draws st1 = draws st"
    using Pair by (auto simp: GetUserPlaylists_def split: sum.splits)
  show ?thesis
  proof (cases g)
    case (Inl err)
    with run Pair have "st' = st1" "\<exists>e. r = Inl e"
      by (auto simp: CreateOrUpdatePlaylist_def FindAllPlaylistsByName_def)
    with st1 show ?thesis
      using list_failed[of _ "[GetUserPlaylistsCall]"] by auto
  next
    case (Inr playlists)
    define matches where "matches = filter (\<lambda>p. GetTitle p = name) playlists"
    have F: "FindAllPlaylistsByName w name st = (Inr matches, st1)"
      using Pair Inr by (simp add: FindAllPlaylistsByName_def matches_def)
    have G: "fst (GetUserPlaylists w st) = Inr playlists"
      using Pair Inr by simp
    obtain d st2 where D: "deleteLoop w matches st1 = (d, st2)"
      by (cases "deleteLoop w matches st1")
    from deleteLoop_trace[OF D] obtain k where
      st2: "trace st2 = trace st1 @ map (\<lambda>p. DeletePlaylistCall (pl_ID p)) (take k matches)"
        "draws st2 = draws st1" "d = None \<longrightarrow> take k matches = matches"
      by blast
    show ?thesis
    proof (cases d)
      case (Some err)
      with run F D obtain e where "st' = st2" "r = Inl e"
        by (auto simp: CreateOrUpdatePlaylist_def)
      moreover from this st1 st2 have "trace st' = trace st @ GetUserPlaylistsCall #
              map (\<lambda>p. DeletePlaylistCall (pl_ID p)) (take k matches)"
        "draws st' = draws st"
        by simp_all
      moreover have "filter isCall (GetUserPlaylistsCall #
              map (\<lambda>p. DeletePlaylistCall (pl_ID p)) (take k matches)) = GetUserPlaylistsCall #
              map (\<lambda>p. DeletePlaylistCall (pl_ID p)) (take k matches)"
        by simp
      ultimately show ?thesis
        using G unfolding matches_def by (rule_tac delete_failed)
    next
      case None
      let ?pr = "Printf ''Creating new playlist '%s'...\<newline>'' [S name]"
      let ?st3 = "emit ?pr st2"
      obtain c st4 where C: "CreatePlaylist w name description ?st3 = (c, st4)"
        by (cases "CreatePlaylist w name description ?st3")
      have st4: "trace st4 = trace ?st3 @ [CreatePlaylistCall name description]" "draws st4 = draws st2"
        using C by (auto simp: CreatePlaylist_def split: sum.splits prod.splits)
      have pre: "trace st4 = trace st @ GetUserPlaylistsCall #
              map (\<lambda>p. DeletePlaylistCall (pl_ID p)) matches @ [?pr, CreatePlaylistCall name description]"
        using st4 st2 st1 None by simp
      show ?thesis
      proof (cases c)
        case (Inl err)
        with run F D None C obtain e where "st' = st4" "r = Inl e"
          by (auto simp: CreateOrUpdatePlaylist_def Let_def)
        moreover from this pre st4 st2 st1 have "trace st' = trace st @ GetUserPlaylistsCall #
              map (\<lambda>p. DeletePlaylistCall (pl_ID p)) matches @ [?pr, CreatePlaylistCall name description]"
          "draws st' = draws st"
          by simp_all
        moreover have "filter isCall (GetUserPlaylistsCall #
              map (\<lambda>p. DeletePlaylistCall (pl_ID p)) matches @ [?pr, CreatePlaylistCall name description])
            = GetUserPlaylistsCall #
              map (\<lambda>p. DeletePlaylistCall (pl_ID p)) matches @ [CreatePlaylistCall name description]"
          by simp
        ultimately show ?thesis
          using G unfolding matches_def by (rule_tac create_failed)
      next
        case (Inr pl)
        obtain b st5 where B: "batchLoop w (GetID pl) trackIDs 0 st4 = (b, st5)"
          by (cases "batchLoop w (GetID pl) trackIDs 0 st4")
        from batchLoop_trace[OF B] obtain evs k where
          st5: "trace st5 = trace st4 @ evs" "draws st5 = draws st4"
          "filter isCall evs = map (SetPlaylistTracksCall (GetID pl)) (take k (chunks batchSize trackIDs))"
          "b = None \<longrightarrow> take k (chunks batchSize trackIDs) = chunks batchSize trackIDs"
          by auto
        from run F D None C Inr B have R: "st' = st5" "(\<exists>e. r = Inl e) \<or> (r = Inr pl \<and> b = None)"
          by (auto simp: CreateOrUpdatePlaylist_def Let_def split: option.splits)
        have 1: "filter isCall (GetUserPlaylistsCall #
              map (\<lambda>p. DeletePlaylistCall (pl_ID p)) matches
                 @ [?pr, CreatePlaylistCall name description] @ evs) =
             GetUserPlaylistsCall # map (\<lambda>p. DeletePlaylistCall (pl_ID p)) matches
              @ CreatePlaylistCall name description #
                map (SetPlaylistTracksCall (GetID pl)) (take k (chunks batchSize trackIDs))"
          using st5 by simp
        have 2: "trace st' = trace st @ (GetUserPlaylistsCall #
              map (\<lambda>p. DeletePlaylistCall (pl_ID p)) matches
                 @ [?pr, CreatePlaylistCall name description] @ evs)"
          using R pre st5 by simp
        have 3: "draws st' = draws st"
          using R st5 st4 st2 st1 by simp
        have 4: "(\<exists>e. r = Inl e) \<or>
           (r = Inr pl \<and> take k (chunks batchSize trackIDs) = chunks batchSize trackIDs)"
          using R st5(4) by blast
        show ?thesis
          using 2 3 G 1 4 unfolding matches_def by (rule created)
      qed
    qed
  qed
qed

lemma no_SetTracks_in_prefix:
  "filter isCall evs = GetUserPlaylistsCall # map (\<lambda>p. DeletePlaylistCall (pl_ID p)) ps @ cs \<Longrightarrow>
   set cs \<subseteq> {CreatePlaylistCall name description} \<Longrightarrow>
   SetPlaylistTracksCall pid ids \<notin> set evs"
proof
  assume a: "filter isCall evs = GetUserPlaylistsCall # map (\<lambda>p. DeletePlaylistCall (pl_ID p)) ps @ cs"
    and b: "set cs \<subseteq> {CreatePlaylistCall name description}"
    and c: "SetPlaylistTracksCall pid ids \<in> set evs"
  from c have "SetPlaylistTracksCall pid ids \<in> set (filter isCall evs)" by simp
  with a b show False by auto
qed

text \<open>
  Claim C7. Take any run of \<open>CreateOrUpdatePlaylist\<close> for a name \<open>X\<close> and a list of
  track IDs that succeeds or that attaches a batch of tracks at all. The API calls of that
  run are then, in this order: the listing of the user's playlists; one delete call for each
  listed playlist whose reconciled title (\<open>GetTitle\<close>) equals \<open>X\<close>, and for no other;
  exactly one create call, with title \<open>X\<close>; and after that nothing but track writes.
  So no track is attached before the deletions and the creation are complete.
\<close>

theorem CreateOrUpdatePlaylist_upsert_order:
  assumes run: "CreateOrUpdatePlaylist w name description trackIDs st = (r, st')"
    and att: "(\<exists>pl. r = Inr pl) \<or> (\<exists>pid ids. SetPlaylistTracksCall pid ids \<in> set (newEvents st st'))"
  shows "\<exists>playlists pid batches.
          fst (GetUserPlaylists w st) = Inr playlists \<and>
          filter isCall (newEvents st st') =
            GetUserPlaylistsCall #
            map (\<lambda>p. DeletePlaylistCall (pl_ID p)) (filter (\<lambda>p. GetTitle p = name) playlists)
            @ CreatePlaylistCall name description # map (SetPlaylistTracksCall pid) batches"
  using run
proof (cases rule: CreateOrUpdatePlaylist_cases)
  case (list_failed e evs)
  have "SetPlaylistTracksCall pid ids \<notin> set evs" for pid ids
    using no_SetTracks_in_prefix[of evs "[]" "[]"] list_failed(4) by simp
  with att list_failed show ?thesis by (simp add: newEvents_append)
next
  case (delete_failed e evs playlists k)
  have "SetPlaylistTracksCall pid ids \<notin> set evs" for pid ids
    using no_SetTracks_in_prefix[of evs "take k (filter (\<lambda>p. GetTitle p = name) playlists)" "[]"]
      delete_failed(5) by simp
  with att delete_failed show ?thesis by (simp add: newEvents_append)
next
  case (create_failed e evs playlists)
  have "SetPlaylistTracksCall pid ids \<notin> set evs" for pid ids
    using no_SetTracks_in_prefix[of evs "filter (\<lambda>p. GetTitle p = name) playlists"
        "[CreatePlaylistCall name description]"] create_failed(5)
    by simp
  with att create_failed show ?thesis by (simp add: newEvents_append)
next
  case (created evs playlists pl k)
  then show ?thesis by (auto simp add: newEvents_append)
qed

lemma concat_chunks: "0 < n \<Longrightarrow> concat (chunks n xs) = xs"
proof (induction n xs rule: chunks.induct)
  case (1 n xs)
  then show ?case
    by (subst chunks.simps) auto
qed

lemma chunks_length_le: "b \<in> set (chunks n xs) \<Longrightarrow> length b \<le> n"
proof (induction n xs rule: chunks.induct)
  case (1 n xs)
  from "1.prems" have ne: "\<not> (xs = [] \<or> n = 0)" and
    "b = take n xs \<or> b \<in> set (chunks n (drop n xs))"
    by (subst (asm) chunks.simps, auto split: if_splits)+
  then show ?case using "1.IH" by auto
qed

lemma chunks_45:
  assumes "length xs = 45"
  shows "map length (chunks 20 xs) = [20, 20, 5]"
proof -
  have 1: "chunks 20 xs = take 20 xs # chunks 20 (drop 20 xs)"
    using assms by (subst chunks.simps) auto
  have 2: "chunks 20 (drop 20 xs) = take 20 (drop 20 xs) # chunks 20 (drop 20 (drop 20 xs))"
    using assms by (subst chunks.simps) auto
  have 3: "chunks 20 (drop 20 (drop 20 xs)) = [take 20 (drop 20 (drop 20 xs))]"
    using assms by (subst chunks.simps) auto
  show ?thesis unfolding 1 2 3 using assms by simp
qed

lemma concat_take_prefix: "\<exists>rest. concat (take k xss) @ rest = concat xss"
  by (metis append_take_drop_id concat_append)

lemma batchesOf_append: "batchesOf (xs @ ys) = batchesOf xs @ batchesOf ys"
  by (induction xs rule: batchesOf.induct) auto

lemma batchesOf_filter_isCall: "batchesOf (filter isCall evs) = batchesOf evs"
  by (induction evs rule: batchesOf.induct) auto

lemma batchesOf_deletes [simp]: "batchesOf (map (\<lambda>p. DeletePlaylistCall (pl_ID p)) ps) = []"
  by (induction ps) auto

lemma batchesOf_sets [simp]: "batchesOf (map (SetPlaylistTracksCall pid) bs) = bs"
  by (induction bs) auto

text \<open>
  Claim C8. In every run of \<open>CreateOrUpdatePlaylist\<close> each batch passed to
  \<open>SetPlaylistTracks\<close> has at most 20 IDs, and the batches written so far, concatenated,
  are an initial part of the input. When the run succeeds the concatenation is the whole
  input, in the original order; for 45 track IDs there are exactly three write calls, of
  sizes 20, 20 and 5 in that order.
\<close>

theorem CreateOrUpdatePlaylist_batches:
  assumes run: "CreateOrUpdatePlaylist w name description trackIDs st = (r, st')"
  shows "(\<forall>batch \<in> set (batchesOf (newEvents st st')). length batch \<le> 20)
       \<and> (\<exists>rest. concat (batchesOf (newEvents st st')) @ rest = trackIDs)
       \<and> ((\<exists>pl. r = Inr pl) \<longrightarrow>
            concat (batchesOf (newEvents st st')) = trackIDs
            \<and> (length trackIDs = 45 \<longrightarrow>
                 map length (batchesOf (newEvents st st')) = [20, 20, 5]))"
  using run
proof (cases rule: CreateOrUpdatePlaylist_cases)
  case (list_failed e evs)
  from list_failed(4) have "batchesOf (filter isCall evs) = []" by simp
  then have "batchesOf (newEvents st st') = []"
    using list_failed(2) by (simp add: batchesOf_filter_isCall newEvents_append)
  with list_failed(1) show ?thesis by simp
next
  case (delete_failed e evs playlists k)
  from delete_failed(5) have "batchesOf (filter isCall evs) = []" by simp
  then have "batchesOf (newEvents st st') = []"
    using delete_failed(2) by (simp add: batchesOf_filter_isCall newEvents_append)
  with delete_failed(1) show ?thesis by simp
next
  case (create_failed e evs playlists)
  from create_failed(5) have "batchesOf (filter isCall evs) = []"
    by (simp add: batchesOf_append)
  then have "batchesOf (newEvents st st') = []"
    using create_failed(2) by (simp add: batchesOf_filter_isCall newEvents_append)
  with create_failed(1) show ?thesis by simp
next
  case (created evs playlists pl k)
  from created(4) have "batchesOf (filter isCall evs) = take k (chunks batchSize trackIDs)"
    by (simp add: batchesOf_append)
  then have B: "batchesOf (newEvents st st') = take k (chunks 20 trackIDs)"
    using created(1) by (simp add: batchesOf_filter_isCall newEvents_append batchSize_def)
  have 1: "\<forall>batch \<in> set (batchesOf (newEvents st st')). length batch \<le> 20"
    unfolding B using chunks_length_le[of _ 20 trackIDs] by (auto dest: in_set_takeD)
  have 2: "\<exists>rest. concat (batchesOf (newEvents st st')) @ rest = trackIDs"
    unfolding B using concat_take_prefix[of k "chunks 20 trackIDs"] by (simp add: concat_chunks)
  have 3: "concat (batchesOf (newEvents st st')) = trackIDs
            \<and> (length trackIDs = 45 \<longrightarrow> map length (batchesOf (newEvents st st')) = [20, 20, 5])"
    if "r = Inr pl'" for pl'
  proof -
    from that created(5) have "take k (chunks 20 trackIDs) = chunks 20 trackIDs"
      by (auto simp: batchSize_def)
    with B show ?thesis by (simp add: concat_chunks chunks_45)
  qed
  from 1 2 3 show ?thesis by blast
qed

lemma demo_upsert_45:
  "fst (CreateOrUpdatePlaylist demoWorld ''Mix'' ''d'' ids45 st0) =
     Inr \<lparr>pl_ID = ''new'', pl_UUID = '''', pl_Title = ''Mix'', pl_Name = ''Mix'',
          pl_Description = ''d''\<rparr>"
  by code_simp

theorem CreateOrUpdatePlaylist_batches_witness:
  "map length (batchesOf (newEvents st0
      (snd (CreateOrUpdatePlaylist demoWorld ''Mix'' ''d'' ids45 st0)))) = [20, 20, 5]"
  using CreateOrUpdatePlaylist_batches [of demoWorld "''Mix''" "''d''" ids45 st0
      "fst (CreateOrUpdatePlaylist demoWorld ''Mix'' ''d'' ids45 st0)"
      "snd (CreateOrUpdatePlaylist demoWorld ''Mix'' ''d'' ids45 st0)"] demo_upsert_45
  by (simp add: ids45_def)

lemma demo_upsert_run:
  "CreateOrUpdatePlaylist demoWorld ''Mix'' ''d'' [''t1'', ''t2''] st0 =
     (Inr \<lparr>pl_ID = ''new'', pl_UUID = '''', pl_Title = ''Mix'', pl_Name = ''Mix'',
           pl_Description = ''d''\<rparr>,
      \<lparr>trace = [GetUserPlaylistsCall, DeletePlaylistCall ''p1'', DeletePlaylistCall ''p3'',
                Printf ''Creating new playlist '%s'...\<newline>'' [S ''Mix''],
                CreatePlaylistCall ''Mix'' ''d'',
                SetPlaylistTracksCall ''new'' [''t1'', ''t2''],
                Printf ''Added %d tracks...\<newline>'' [I 2]],
       draws = 0\<rparr>)"
  by code_simp

theorem CreateOrUpdatePlaylist_upsert_order_witness:
  "\<exists>playlists pid batches.
      fst (GetUserPlaylists demoWorld st0) = Inr playlists \<and>
      filter isCall (newEvents st0
         \<lparr>trace = [GetUserPlaylistsCall, DeletePlaylistCall ''p1'', DeletePlaylistCall ''p3'',
                Printf ''Creating new playlist '%s'...\<newline>'' [S ''Mix''],
                CreatePlaylistCall ''Mix'' ''d'',
                SetPlaylistTracksCall ''new'' [''t1'', ''t2''],
                Printf ''Added %d tracks...\<newline>'' [I 2]],
       draws = 0\<rparr>) =
        GetUserPlaylistsCall #
        map (\<lambda>p. DeletePlaylistCall (pl_ID p)) (filter (\<lambda>p. GetTitle p = ''Mix'') playlists)
        @ CreatePlaylistCall ''Mix'' ''d'' # map (SetPlaylistTracksCall pid) batches"
  using CreateOrUpdatePlaylist_upsert_order [OF demo_upsert_run] by simp

section \<open>Verification: track collection\<close>

lemma readOnly_simps [simp]:
  "readOnly []"
  "readOnly (e # evs) = (\<not> mutating e \<and> e \<noteq> GetUserPlaylistsCall \<and> readOnly evs)"
  "readOnly (xs @ ys) = (readOnly xs \<and> readOnly ys)"
  by (auto simp: readOnly_def)

lemma GetAlbumTracks_state:
  "snd (GetAlbumTracks w a st) = emit (GetAlbumTracksCall a) st"
  by (simp add: GetAlbumTracks_def split: sum.splits)

lemma GetArtistAlbums_state:
  "snd (GetArtistAlbums w a n st) = emit (GetArtistAlbumsCall a (int n)) st"
  by (simp add: GetArtistAlbums_def Let_def split: sum.splits)

lemma CollectTracks_pick_general:
  assumes run: "CollectTracks_pick w i la lal result st = (r, st')"
    and ne: "lal \<noteq> []" and i: "i < length result"
  shows "\<exists>evs result'. trace st' = trace st @ evs \<and> readOnly evs
           \<and> r = Inr (la, lal, result') \<and> length result' = length result
           \<and> (\<forall>j. j \<noteq> i \<longrightarrow> result' ! j = result ! j)"
proof -
  let ?r = "rnd w (draws st) mod length lal"
  let ?st1 = "st\<lparr>draws := draws st + 1\<rparr>"
  let ?alb = "lal ! ?r"
  let ?st2 = "emit (Printf ''  %s - '' [S (album_Title ?alb)]) ?st1"
  let ?st3 = "emit (GetAlbumTracksCall (album_ID ?alb)) ?st2"
  have I1: "Intn w (length lal) st = (Inr ?r, ?st1)"
    using ne by (simp add: Intn_pos)
  obtain g where G: "GetAlbumTracks w (album_ID ?alb) ?st2 = (g, ?st3)"
    using GetAlbumTracks_state[of w "album_ID ?alb" ?st2]
    by (cases "GetAlbumTracks w (album_ID ?alb) ?st2") auto
  have T3: "trace ?st3 = trace st @ [Printf ''  %s - '' [S (album_Title ?alb)],
                                     GetAlbumTracksCall (album_ID ?alb)]"
    by simp
  show ?thesis
  proof (cases g)
    case (Inl err)
    with run I1 G have "r = Inr (la, lal, result)" "st' = ?st3"
      by (simp_all add: CollectTracks_pick_def Let_def)
    with T3 show ?thesis by simp
  next
    case (Inr tracks)
    show ?thesis
    proof (cases "tracks = []")
      case True
      with run I1 G Inr have "r = Inr (la, lal, result)" "st' = ?st3"
        by (simp_all add: CollectTracks_pick_def Let_def)
      with T3 show ?thesis by simp
    next
      case False
      let ?k = "rnd w (draws ?st3) mod length tracks"
      let ?st4 = "?st3\<lparr>draws := draws ?st3 + 1\<rparr>"
      have I2: "Intn w (length tracks) ?st3 = (Inr ?k, ?st4)"
        using False by (simp add: Intn_pos)
      from run I1 G Inr False I2 i
      have "r = Inr (la, lal, result[i := Some (tracks ! ?k)])"
        "st' = emit (Println (track_Title (tracks ! ?k))) ?st4"
        by (simp_all add: CollectTracks_pick_def Let_def)
      with T3 show ?thesis by simp
    qed
  qed
qed

lemma CollectTracks_body_general:
  assumes run: "CollectTracks_body w i a la lal result st = (r, st')"
    and inv: "cacheOK la lal" and i: "i < length result"
  shows "\<exists>evs. trace st' = trace st @ evs \<and> readOnly evs \<and>
           ((r = Inl NilDereference \<and> (\<exists>err. Artist_resp w (trace st) (aid_ID a) = Inl err)) \<or>
            (\<exists>la' lal' result'. r = Inr (la', lal', result') \<and> cacheOK la' lal'
               \<and> length result' = length result
               \<and> (\<forall>j. j \<noteq> i \<longrightarrow> result' ! j = result ! j)))"
proof (cases "Artist_resp w (trace st) (aid_ID a)")
  case (Inl err)
  with run have "r = Inl NilDereference" "st' = emit (GetArtistCall (aid_ID a)) st"
    by (simp_all add: CollectTracks_body_def GetArtist_def)
  with Inl show ?thesis by simp
next
  case (Inr artist)
  let ?st1 = "emit (GetArtistCall (aid_ID a)) st"
  have GA: "GetArtist w (aid_ID a) st = (Inr artist, ?st1)"
    using Inr by (simp add: GetArtist_def)
  show ?thesis
  proof (cases "la = '''' \<or> la \<noteq> artist_ID artist")
    case False
    with run GA have P: "CollectTracks_pick w i la lal result ?st1 = (r, st')"
      by (simp add: CollectTracks_body_def)
    from False inv have "lal \<noteq> []" by (auto simp add: cacheOK_def)
    from CollectTracks_pick_general[OF P this i] inv show ?thesis
      by auto
  next
    case True
    let ?st2 = "emit (Println (artist_Name artist @ '' ('' @ artist_ID artist @ '')'')) ?st1"
    let ?st3 = "emit (GetArtistAlbumsCall (artist_ID artist) 100) ?st2"
    obtain g where G: "GetArtistAlbums w (artist_ID artist) 100 ?st2 = (g, ?st3)"
      using GetArtistAlbums_state[of w "artist_ID artist" 100 ?st2]
      by (cases "GetArtistAlbums w (artist_ID artist) 100 ?st2") auto
    show ?thesis
    proof (cases g)
      case (Inl err)
      with run GA True G have "r = Inr (la, lal, result)"
        "st' = emit (Printf ''Warning: failed to get albums for %s: %v\<newline>''
                       [S (artist_ID artist), E (Some err)]) ?st3"
        by (simp_all add: CollectTracks_body_def Let_def)
      with inv show ?thesis by simp
    next
      case (Inr albums)
      show ?thesis
      proof (cases "albums = []")
        case True
        with run GA \<open>la = '''' \<or> la \<noteq> artist_ID artist\<close> G Inr
        have "r = Inr (la, lal, result)"
          "st' = emit (Printf ''Warning: failed to get albums for %s: %v\<newline>''
                       [S (artist_ID artist), E None]) ?st3"
          by (simp_all add: CollectTracks_body_def Let_def)
        with inv show ?thesis by simp
      next
        case False
        with run GA True G Inr
        have P: "CollectTracks_pick w i (artist_ID artist) albums result ?st3 = (r, st')"
          by (simp add: CollectTracks_body_def Let_def)
        from CollectTracks_pick_general[OF P False i] obtain evs result' where
          "trace st' = trace ?st3 @ evs" "readOnly evs"
          "r = Inr (artist_ID artist, albums, result')" "length result' = length result"
          "\<forall>j. j \<noteq> i \<longrightarrow> result' ! j = result ! j"
          by blast
        with False show ?thesis
          by (simp add: cacheOK_def)
      qed
    qed
  qed
qed

lemma CollectTracks_loop_general:
  assumes "CollectTracks_loop w rest i la lal result st = (r, st')"
    and "cacheOK la lal" and "i + length rest \<le> length result"
  shows "\<exists>evs. trace st' = trace st @ evs \<and> readOnly evs \<and>
           ((r = Inl NilDereference \<and> (\<exists>h a err. Artist_resp w h a = Inl err)) \<or>
            (\<exists>result'. r = Inr result' \<and> length result' = length result))"
  using assms
proof (induction rest arbitrary: i la lal result st)
  case Nil
  then show ?case by auto
next
  case (Cons a rest)
  obtain b st1 where B: "CollectTracks_body w i a la lal result st = (b, st1)"
    by (cases "CollectTracks_body w i a la lal result st")
  from Cons.prems(3) have i: "i < length result" by simp
  from CollectTracks_body_general[OF B Cons.prems(2) i] obtain evs where
    E: "trace st1 = trace st @ evs" "readOnly evs" and
    C: "(b = Inl NilDereference \<and> (\<exists>h a err. Artist_resp w h a = Inl err)) \<or>
        (\<exists>la' lal' result'. b = Inr (la', lal', result') \<and> cacheOK la' lal'
               \<and> length result' = length result)"
    by blast
  from C show ?case
  proof
    assume *: "b = Inl NilDereference \<and> (\<exists>h a err. Artist_resp w h a = Inl err)"
    with Cons.prems(1) B have "r = Inl NilDereference" "st' = st1" by simp_all
    with E * show ?thesis by blast
  next
    assume "\<exists>la' lal' result'. b = Inr (la', lal', result') \<and> cacheOK la' lal'
               \<and> length result' = length result"
    then obtain la' lal' result' where
      b: "b = Inr (la', lal', result')" "cacheOK la' lal'" "length result' = length result"
      by blast
    with Cons.prems(1) B have L: "CollectTracks_loop w rest (i + 1) la' lal' result' st1 = (r, st')"
      by simp
    from Cons.prems(3) b(3) have "i + 1 + length rest \<le> length result'" by simp
    from Cons.IH[OF L b(2) this] obtain evs' where
      "trace st' = trace st1 @ evs'" "readOnly evs'"
      "(r = Inl NilDereference \<and> (\<exists>h a err. Artist_resp w h a = Inl err))
         \<or> (\<exists>r'. r = Inr r' \<and> length r' = length result')"
      by blast
    with E b(3) show ?thesis
      by (intro exI[of _ "evs @ evs'"]) simp
  qed
qed

lemma CollectTracks_general:
  assumes "CollectTracks w artists st = (r, st')"
  shows "\<exists>evs. trace st' = trace st @ evs \<and> readOnly evs \<and>
           ((r = Inl NilDereference \<and> (\<exists>h a err. Artist_resp w h a = Inl err)) \<or>
            (\<exists>result. r = Inr (sort_key aid_ID artists, result) \<and> length result = length artists))"
proof -
  obtain l st1 where L: "CollectTracks_loop w (sort_key aid_ID artists) 0 '''' []
      (replicate (length artists) None) st = (l, st1)"
    by (cases "CollectTracks_loop w (sort_key aid_ID artists) 0 '''' []
      (replicate (length artists) None) st")
  have "cacheOK '''' []" by (simp add: cacheOK_def)
  from CollectTracks_loop_general[OF L this] obtain evs where
    "trace st1 = trace st @ evs" "readOnly evs"
    "(l = Inl NilDereference \<and> (\<exists>h a err. Artist_resp w h a = Inl err))
       \<or> (\<exists>result'. l = Inr result' \<and> length result' = length artists)"
    by auto
  moreover from assms L have "st' = st1"
    "r = (case l of Inl p \<Rightarrow> Inl p | Inr result1 \<Rightarrow> Inr (sort_key aid_ID artists, result1))"
    by (auto simp: CollectTracks_def Let_def split: sum.splits)
  ultimately show ?thesis by auto
qed









section \<open>Verification: orchestration\<close>

lemma dropNil_eq: "dropNil tracks acc = acc @ map the (filter (\<lambda>t. t \<noteq> None) tracks)"
  by (induction tracks acc rule: dropNil.induct) auto

lemma length_dropNil: "length (dropNil tracks []) \<le> length tracks"
  by (simp add: dropNil_eq)



lemma BuildPlaylist_finish_no_panic:
  "\<exists>e. fst (BuildPlaylist_finish w playlistName dryRun tracks st) = Inr e"
  by (simp add: BuildPlaylist_finish_def Let_def split: prod.splits sum.splits)

lemma BuildPlaylist_cases
  [consumes 1, case_names fetch_failed no_artists negative_count nil_deref collected]:
  assumes run: "BuildPlaylist w cfg playlistName dryRun st = (r, st')"
  obtains
    (fetch_failed) err where
      "r = Inr (Some (''failed to fetch favorite artists: '' @ err))"
      "trace st' = trace st @ [Println ''Fetching favorite artists...\<newline>'', GetFavoriteArtistsCall]"
      "draws st' = draws st"
  | (no_artists) artists where
      "FavoriteArtists_resp w (trace st @ [Println ''Fetching favorite artists...\<newline>''])
         = Inr artists"
      "FilterArtists (ToLower w) cfg artists = []"
      "r = Inr (Some ''no artists remaining after filtering'')"
      "trace st' = trace st @ [Println ''Fetching favorite artists...\<newline>'', GetFavoriteArtistsCall,
          Printf ''Found %d favorite artists\<newline>'' [I (int (length artists))],
          Printf ''After filtering: %d artists\<newline>'' [I 0]]"
      "draws st' = draws st"
  | (negative_count) evs where
      "Count cfg < 0" "r = Inl MakeSliceNegative"
      "trace st' = trace st @ evs" "readOnly evs"
  | (nil_deref) evs where
      "r = Inl NilDereference" "trace st' = trace st @ evs" "readOnly evs"
      "\<exists>h a err. Artist_resp w h a = Inl err"
  | (collected) evs tracks st7 where
      "0 \<le> Count cfg" "length tracks = nat (Count cfg)"
      "trace st7 = trace st @ evs" "readOnly evs"
      "BuildPlaylist_finish w playlistName dryRun tracks st7 = (r, st')"
proof -
  let ?st1 = "emit (Println ''Fetching favorite artists...\<newline>'') st"
  let ?st2 = "emit GetFavoriteArtistsCall ?st1"
  show ?thesis
  proof (cases "FavoriteArtists_resp w (trace ?st1)")
    case (Inl err)
    with run have "r = Inr (Some (''failed to fetch favorite artists: '' @ err))" "st' = ?st2"
      by (simp_all add: BuildPlaylist_def GetFavoriteArtists_def Let_def)
    then show ?thesis using fetch_failed[of err] by simp
  next
    case (Inr artists)
    let ?filtered = "FilterArtists (ToLower w) cfg artists"
    let ?st3 = "emit (Printf ''Found %d favorite artists\<newline>'' [I (int (length artists))]) ?st2"
    let ?st4 = "emit (Printf ''After filtering: %d artists\<newline>'' [I (int (length ?filtered))]) ?st3"
    have T4: "trace ?st4 = trace st @ [Println ''Fetching favorite artists...\<newline>'',
        GetFavoriteArtistsCall,
        Printf ''Found %d favorite artists\<newline>'' [I (int (length artists))],
        Printf ''After filtering: %d artists\<newline>'' [I (int (length ?filtered))]]"
      by simp
    show ?thesis
    proof (cases "?filtered = []")
      case True
      with run Inr have "r = Inr (Some ''no artists remaining after filtering'')" "st' = ?st4"
        by (simp_all add: BuildPlaylist_def GetFavoriteArtists_def Let_def)
      with True Inr T4 show ?thesis using no_artists[of artists] by simp
    next
      case False
      obtain s st5 where Sel: "selectRandomItems w \<lparr>aid_ID = ''''\<rparr> (Count cfg) ?filtered ?st4 = (s, st5)"
        by (cases "selectRandomItems w \<lparr>aid_ID = ''''\<rparr> (Count cfg) ?filtered ?st4")
      show ?thesis
      proof (cases "Count cfg < 0")
        case True
        with Sel have "s = Inl MakeSliceNegative" "st5 = ?st4"
          by (simp_all add: selectRandomItems_def)
        with run Inr False Sel have "r = Inl MakeSliceNegative" "st' = ?st4"
          by (simp_all add: BuildPlaylist_def GetFavoriteArtists_def Let_def)
        with True T4 show ?thesis
          using negative_count[of "[Println ''Fetching favorite artists...\<newline>'',
            GetFavoriteArtistsCall,
            Printf ''Found %d favorite artists\<newline>'' [I (int (length artists))],
            Printf ''After filtering: %d artists\<newline>'' [I (int (length ?filtered))]]"]
          by simp
      next
        case nonneg: False
        then have c0: "0 \<le> Count cfg" by simp
        from selectRandomItems_ok[OF c0 False, of w "\<lparr>aid_ID = ''''\<rparr>" ?st4] Sel
        obtain selected where
          s: "s = Inr selected" "length selected = nat (Count cfg)" "trace st5 = trace ?st4"
          by auto
        let ?st6 = "emit (Println ''\<newline>Collecting tracks from artists...'') st5"
        obtain c st7 where C: "CollectTracks w selected ?st6 = (c, st7)"
          by (cases "CollectTracks w selected ?st6")
        from CollectTracks_general[OF C] obtain evs where
          E: "trace st7 = trace ?st6 @ evs" "readOnly evs"
          and D: "(c = Inl NilDereference \<and> (\<exists>h a err. Artist_resp w h a = Inl err)) \<or>
            (\<exists>result. c = Inr (sort_key aid_ID selected, result) \<and> length result = length selected)"
          by blast
        let ?evs = "[Println ''Fetching favorite artists...\<newline>'',
            GetFavoriteArtistsCall,
            Printf ''Found %d favorite artists\<newline>'' [I (int (length artists))],
            Printf ''After filtering: %d artists\<newline>'' [I (int (length ?filtered))],
            Println ''\<newline>Collecting tracks from artists...''] @ evs"
        have T7: "trace st7 = trace st @ ?evs" "readOnly ?evs"
          using E s(3) T4 by simp_all
        from D show ?thesis
        proof
          assume *: "c = Inl NilDereference \<and> (\<exists>h a err. Artist_resp w h a = Inl err)"
          with run Inr False Sel s C have "r = Inl NilDereference" "st' = st7"
            by (simp_all add: BuildPlaylist_def GetFavoriteArtists_def Let_def)
          with T7 * show ?thesis using nil_deref[of ?evs] by blast
        next
          assume "\<exists>result. c = Inr (sort_key aid_ID selected, result) \<and> length result = length selected"
          then obtain tracks where
            c: "c = Inr (sort_key aid_ID selected, tracks)" "length tracks = length selected"
            by blast
          with run Inr False Sel s C
          have "BuildPlaylist_finish w playlistName dryRun tracks st7 = (r, st')"
            by (simp add: BuildPlaylist_def GetFavoriteArtists_def Let_def)
          with c0 c(2) s(2) T7 show ?thesis using collected[of tracks st7 ?evs] by simp
        qed
      qed
    qed
  qed
qed


text \<open>
  Claim C10. \<open>selectRandomItems\<close> with a positive count and an empty source panics in
  \<open>rand.Intn(0)\<close>. No run of \<open>BuildPlaylist\<close> ends in that panic: when the filtered
  artist list is empty the run stops with the error
  \<open>no artists remaining after filtering\<close> before any random draw is made, so sampling
  only ever sees a non-empty source.
\<close>

theorem sampling_source_never_empty:
  "(0 < count \<longrightarrow> selectRandomItems w zero count [] st = (Inl IntnNonPositive, st))
   \<and> fst (BuildPlaylist w cfg playlistName dryRun st) \<noteq> Inl IntnNonPositive
   \<and> (\<forall>artists.
        FavoriteArtists_resp w (trace st @ [Println ''Fetching favorite artists...\<newline>''])
          = Inr artists
        \<and> FilterArtists (ToLower w) cfg artists = [] \<longrightarrow>
        fst (BuildPlaylist w cfg playlistName dryRun st)
          = Inr (Some ''no artists remaining after filtering'')
        \<and> draws (snd (BuildPlaylist w cfg playlistName dryRun st)) = draws st)"
proof (intro conjI allI impI)
  assume "0 < count"
  then have "0 < nat count" by simp
  then show "selectRandomItems w zero count [] st = (Inl IntnNonPositive, st)"
    using \<open>0 < count\<close>
    by (simp add: selectRandomItems_def selectRandomItems_loop.simps[of w "nat count" "[]" 0] Intn_def)
next
  obtain r st' where run: "BuildPlaylist w cfg playlistName dryRun st = (r, st')"
    by (cases "BuildPlaylist w cfg playlistName dryRun st")
  from run have "r \<noteq> Inl IntnNonPositive"
  proof (cases rule: BuildPlaylist_cases)
    case (collected evs tracks st7)
    with BuildPlaylist_finish_no_panic[of w playlistName dryRun tracks st7]
    show ?thesis by auto
  qed simp_all
  with run show "fst (BuildPlaylist w cfg playlistName dryRun st) \<noteq> Inl IntnNonPositive"
    by simp
next
  fix artists
  assume a: "FavoriteArtists_resp w (trace st @ [Println ''Fetching favorite artists...\<newline>''])
          = Inr artists \<and> FilterArtists (ToLower w) cfg artists = []"
  then show "fst (BuildPlaylist w cfg playlistName dryRun st)
          = Inr (Some ''no artists remaining after filtering'')"
    by (simp add: BuildPlaylist_def GetFavoriteArtists_def Let_def)
  from a show "draws (snd (BuildPlaylist w cfg playlistName dryRun st)) = draws st"
    by (simp add: BuildPlaylist_def GetFavoriteArtists_def Let_def)
qed

section \<open>Concrete runs\<close>

text \<open>
  Claim C2 does not hold of the code. When \<open>GetArtist\<close> fails, the run panics with a
  nil dereference while it evaluates the arguments of the warning: no stub is substituted
  and nothing continues. Here every artist-detail fetch answers \<open>HTTP 404\<close>.
\<close>

theorem CollectTracks_artist_failure_panics:
  "CollectTracks artistFailWorld [\<lparr>aid_ID = ''A''\<rparr>] st0
     = (Inl NilDereference, \<lparr>trace = [GetArtistCall ''A''], draws = 0\<rparr>)
   \<and> fst (BuildPlaylist artistFailWorld demoConfig ''Mix'' True st0) = Inl NilDereference"
  by (rule conjI; code_simp)

text \<open>
  Claim C3 does not hold of the code. The emptiness test of \<open>BuildPlaylist\<close> looks at
  the slice before the nil slots are dropped. Here no artist has an album, so both slots
  stay empty and the final track list is empty; the run nevertheless deletes the two
  playlists titled \<open>Mix\<close>, creates a new empty one and reports success.
\<close>

theorem BuildPlaylist_empty_final_list_upserts:
  "fst (BuildPlaylist noAlbumsWorld demoConfig ''Mix'' False st0) = Inr None
   \<and> filter isCall (trace (snd (BuildPlaylist noAlbumsWorld demoConfig ''Mix'' False st0)))
     = [GetFavoriteArtistsCall,
        GetArtistCall ''C'', GetArtistAlbumsCall ''C'' 100,
        GetArtistCall ''a'', GetArtistAlbumsCall ''a'' 100,
        GetUserPlaylistsCall, DeletePlaylistCall ''p1'', DeletePlaylistCall ''p3'',
        CreatePlaylistCall ''Mix'' ''Generated by tidal-playlist'']"
  by (rule conjI; code_simp)

text \<open>
  Claim C5 does not hold of the code, by the defect shown for C2. For three sampled
  artists, the detail fetch of \<open>B\<close> failing, \<open>CollectTracks\<close> returns no slice at all.
\<close>

theorem CollectTracks_no_slice_on_artist_failure:
  "fst (CollectTracks artistBFailWorld
          [\<lparr>aid_ID = ''A''\<rparr>, \<lparr>aid_ID = ''B''\<rparr>, \<lparr>aid_ID = ''A''\<rparr>] st0)
     = Inl NilDereference"
  by code_simp







lemma demo_no_match: 
  "FavoriteArtists_resp demoWorld (trace st0 @ [Println ''Fetching favorite artists...\<newline>''])
     = Inr [\<lparr>aid_ID = ''B''\<rparr>, \<lparr>aid_ID = ''a''\<rparr>, \<lparr>aid_ID = ''C''\<rparr>]"
  "FilterArtists (ToLower demoWorld) noMatchConfig
     [\<lparr>aid_ID = ''B''\<rparr>, \<lparr>aid_ID = ''a''\<rparr>, \<lparr>aid_ID = ''C''\<rparr>] = []"
  by code_simp+

theorem sampling_source_never_empty_witness:
  "selectRandomItems demoWorld (0::nat) 1 [] st0 = (Inl IntnNonPositive, st0)
   \<and> fst (BuildPlaylist demoWorld noMatchConfig ''Mix'' False st0) \<noteq> Inl IntnNonPositive
   \<and> fst (BuildPlaylist demoWorld noMatchConfig ''Mix'' False st0)
        = Inr (Some ''no artists remaining after filtering'')
   \<and> draws (snd (BuildPlaylist demoWorld noMatchConfig ''Mix'' False st0)) = draws st0"
proof -
  note T = sampling_source_never_empty [of 1 demoWorld "0::nat" st0 noMatchConfig "''Mix''" False]
  from T have 1: "selectRandomItems demoWorld (0::nat) 1 [] st0 = (Inl IntnNonPositive, st0)"
    by simp
  from T have 2: "fst (BuildPlaylist demoWorld noMatchConfig ''Mix'' False st0) \<noteq> Inl IntnNonPositive"
    by blast
  from T demo_no_match have 3: "fst (BuildPlaylist demoWorld noMatchConfig ''Mix'' False st0)
        = Inr (Some ''no artists remaining after filtering'')
     \<and> draws (snd (BuildPlaylist demoWorld noMatchConfig ''Mix'' False st0)) = draws st0"
    by blast
  from 1 2 3 show ?thesis by blast
qed

end
